theory Spec2Isabelle
  imports Complex_Main
begin

section \<open>Values, exceptions and observable output\<close>

text \<open>
  The lower bound and its per-node terms are Python floats. A float is modelled as a
  real number or the not-a-number value; rounding and the two infinities are outside
  the model. Arithmetic and comparisons follow IEEE on NaN: an operation with a NaN
  operand is NaN, and every comparison with a NaN operand is false.
\<close>

datatype pyfloat = NaN | Fin real

fun fadd :: "pyfloat \<Rightarrow> pyfloat \<Rightarrow> pyfloat" where
  "fadd (Fin a) (Fin b) = Fin (a + b)"
| "fadd _ _ = NaN"

fun fsub :: "pyfloat \<Rightarrow> pyfloat \<Rightarrow> pyfloat" where
  "fsub (Fin a) (Fin b) = Fin (a - b)"
| "fsub _ _ = NaN"

fun flt :: "pyfloat \<Rightarrow> pyfloat \<Rightarrow> bool" where
  "flt (Fin a) (Fin b) = (a < b)"
| "flt _ _ = False"

definition fgt :: "pyfloat \<Rightarrow> pyfloat \<Rightarrow> bool" where
  "fgt a b = flt b a"

text \<open>
  Modelled from the spec: \<^verbatim>\<open>utils.utils.nans\<close> is not part of the sources at hand. The
  spec calls the reserved slots "uninitialized sentinel values (e.g. not-a-number)", so
  \<open>nans n\<close> is an array of \<open>n\<close> NaN values.
\<close>

definition nans :: "nat \<Rightarrow> pyfloat list" where
  "nans n = replicate n NaN"

text \<open>Exceptions are values; \<open>Exception msg\<close> is Python's plain \<^verbatim>\<open>Exception(msg)\<close>.\<close>

datatype exn =
    Exception string
  | KeyError string
  | IndexError
  | IOError string
  | ValueError string

text \<open>
  What the loop prints or warns about, in order: the progress line of a round (without
  the elapsed time, which is not modelled), the warning of \<^verbatim>\<open>warnings.warn\<close> with the
  size of the decrease, the line \<^verbatim>\<open>Converged.\<close>, and the line \<^verbatim>\<open>Auto-saved to ...\<close>.
\<close>

datatype event =
    Iteration nat pyfloat
  | Warning pyfloat
  | Converged
  | Autosaved string

section \<open>Nodes, checkpoint files and the loop object\<close>

text \<open>
  An HDF5 group is a list of named datasets. A checkpoint file has the group
  \<^verbatim>\<open>nodes\<close> (one sub-group per saved node), the datasets \<^verbatim>\<open>L\<close> and \<^verbatim>\<open>iter\<close>
  and the group \<^verbatim>\<open>boundterms\<close>; each is absent (\<open>None\<close>) until it is written.
\<close>

type_synonym h5group = "(string \<times> pyfloat list) list"

record h5file =
  h5_nodes :: "(string \<times> h5group) list option"
  h5_L :: "pyfloat list option"
  h5_iter :: "nat option"
  h5_boundterms :: "(string \<times> pyfloat list) list option"

text \<open>
  A node is an opaque object: \<open>ident\<close> is its object identity (what \<^verbatim>\<open>in\<close> and the
  dictionary keys compare), \<open>name\<close> its name. Its methods act on the state \<open>'w\<close> of all
  node internals, may raise, and \<^verbatim>\<open>update\<close>, \<^verbatim>\<open>save\<close> and \<^verbatim>\<open>load\<close> may be absent
  (\<^verbatim>\<open>hasattr\<close> is false).
\<close>

record 'w node =
  ident :: nat
  name :: string
  node_update :: "('w \<Rightarrow> exn option \<times> 'w) option"
  lower_bound_contribution :: "'w \<Rightarrow> (exn + pyfloat) \<times> 'w"
  node_save :: "(h5group \<Rightarrow> 'w \<Rightarrow> exn option \<times> h5group \<times> 'w) option"
  node_load :: "(h5group \<Rightarrow> 'w \<Rightarrow> exn option \<times> 'w) option"

text \<open>The attributes of a \<^verbatim>\<open>VB\<close> object; the dictionary \<open>l\<close> is keyed by node identity.\<close>

record 'w vb =
  model :: "'w node list"
  iter :: nat
  L :: "pyfloat list"
  l :: "nat \<rightharpoonup> pyfloat list"
  autosave_iterations :: int
  autosave_filename :: string
  filename :: "string option"

text \<open>Everything outside the object: node internals, the file system, the output.\<close>

record 'w env =
  world :: 'w
  files :: "string \<rightharpoonup> h5file"
  out :: "event list"

section \<open>Construction\<close>

text \<open>
  Modelled from the spec: \<^verbatim>\<open>utils.utils.unique\<close> is not part of the sources at hand. The
  spec says: "deduplicate nodes preserving first-seen order".
\<close>

fun unique_from :: "nat list \<Rightarrow> 'w node list \<Rightarrow> 'w node list" where
  "unique_from seen [] = []"
| "unique_from seen (x # xs) =
     (if ident x \<in> set seen then unique_from seen xs
      else x # unique_from (ident x # seen) xs)"

definition unique :: "'w node list \<Rightarrow> 'w node list" where
  "unique nodes = unique_from [] nodes"

text \<open>
  The name of the temporary file: the directory and the random part come from the
  operating system, the date from the clock.
\<close>

definition tmpfile_name :: "string \<Rightarrow> string \<Rightarrow> string \<Rightarrow> string" where
  "tmpfile_name dir date rnd = dir @ ''/vb_autosave_'' @ date @ ''_'' @ rnd @ ''.hdf5''"

text \<open>
  \<^verbatim>\<open>VB.__init__\<close>. The argument \<^verbatim>\<open>tol\<close> is stored nowhere and left out. A file name
  is falsy when it is \<^verbatim>\<open>None\<close> or the empty string.
\<close>

definition falsy :: "string option \<Rightarrow> bool" where
  "falsy f = (case f of None \<Rightarrow> True | Some p \<Rightarrow> p = [])"

definition init :: "'w node list \<Rightarrow> int \<Rightarrow> string option \<Rightarrow> string \<Rightarrow> exn + 'w vb" where
  "init nodes autosave_its autosave_fn tmpname =
     (let m = unique nodes;
          self = \<lparr> model = m, iter = 0, L = [],
                   l = map_of (zip (map ident m) (replicate (length m) [])),
                   autosave_iterations = autosave_its,
                   autosave_filename = (if falsy autosave_fn then tmpname else the autosave_fn),
                   filename = (if falsy autosave_fn then None else autosave_fn) \<rparr>;
          names = map name m
      in if length names \<noteq> length m
         then Inl (Exception ''Use unique names for nodes.'')
         else Inr self)"

section \<open>Saving\<close>

text \<open>The first lines of \<^verbatim>\<open>save\<close> and of \<^verbatim>\<open>load\<close>: which file to use.\<close>

definition resolve_filename :: "'w vb \<Rightarrow> string option \<Rightarrow> exn + string" where
  "resolve_filename self fn =
     (if falsy fn then
        (if falsy (filename self) then Inl (Exception ''Filename must be given.'')
         else Inr (the (filename self)))
      else Inr (the fn))"

text \<open>
  The loop over the nodes in \<^verbatim>\<open>save\<close>. Creating a group or a dataset under a name
  that exists already is refused by the storage library with a \<^verbatim>\<open>ValueError\<close>.
  The storage library is not part of the sources, and this is all of it that is
  modelled: a file can always be opened for writing, and a name is a flat key. What
  else the library refuses (a path that cannot be written, a name with \<^verbatim>\<open>/\<close> in
  it, which the library resolves as a path inside the file) is outside the model.
  Where a statement about the loop needs a save to return, it either assumes that the
  round or the autosave returns, or it says that it relies on this model of the
  library.
\<close>

fun save_nodes ::
  "'w node list \<Rightarrow> (string \<times> h5group) list \<Rightarrow> 'w \<Rightarrow> exn option \<times> (string \<times> h5group) list \<times> 'w"
where
  "save_nodes [] g w = (None, g, w)"
| "save_nodes (n # ns) g w =
     (if name n = [] then
        (Some (Exception ''In order to save nodes, they must have (unique) names.''), g, w)
      else case node_save n of
        None \<Rightarrow> save_nodes ns g w
      | Some f \<Rightarrow>
          (if map_of g (name n) \<noteq> None then (Some (ValueError (name n)), g, w)
           else case f [] w of
             (Some e, sub, w') \<Rightarrow> (Some e, g @ [(name n, sub)], w')
           | (None, sub, w') \<Rightarrow> save_nodes ns (g @ [(name n, sub)]) w'))"

fun write_boundterms ::
  "'w node list \<Rightarrow> (nat \<rightharpoonup> pyfloat list) \<Rightarrow> (string \<times> pyfloat list) list
     \<Rightarrow> exn option \<times> (string \<times> pyfloat list) list"
where
  "write_boundterms [] lm g = (None, g)"
| "write_boundterms (n # ns) lm g =
     (case lm (ident n) of
        None \<Rightarrow> (Some (KeyError (name n)), g)
      | Some xs \<Rightarrow>
          (if map_of g (name n) \<noteq> None then (Some (ValueError (name n)), g)
           else write_boundterms ns lm (g @ [(name n, xs)])))"

definition save :: "'w vb \<Rightarrow> string option \<Rightarrow> 'w env \<Rightarrow> exn option \<times> 'w env" where
  "save self fn env =
     (case resolve_filename self fn of
        Inl e \<Rightarrow> (Some e, env)
      | Inr p \<Rightarrow>
          (case save_nodes (model self) [] (world env) of
             (Some e, g, w) \<Rightarrow>
               (Some e, env\<lparr> world := w,
                  files := (files env)(p \<mapsto> \<lparr> h5_nodes = Some g, h5_L = None,
                                               h5_iter = None, h5_boundterms = None \<rparr>) \<rparr>)
           | (None, g, w) \<Rightarrow>
               (case write_boundterms (model self) (l self) [] of
                  (r, bt) \<Rightarrow>
                    (r, env\<lparr> world := w,
                       files := (files env)(p \<mapsto> \<lparr> h5_nodes = Some g, h5_L = Some (L self),
                                                    h5_iter = Some (iter self),
                                                    h5_boundterms = Some bt \<rparr>) \<rparr>))))"

section \<open>Loading\<close>

datatype 'w node_ref = ByNode "'w node" | ByName string

text \<open>\<^verbatim>\<open>VB.__getitem__\<close>: a member of the model is returned as it is, anything else is
  looked up in the dictionary from names to nodes, where a later node of the model
  replaces an earlier one of the same name.\<close>

definition getitem :: "'w vb \<Rightarrow> 'w node_ref \<Rightarrow> exn + 'w node" where
  "getitem self r =
     (case r of
        ByNode n \<Rightarrow>
          (if ident n \<in> set (map ident (model self)) then Inr n else Inl (KeyError (name n)))
      | ByName nm \<Rightarrow>
          (case map_of (rev (map (\<lambda>n. (name n, n)) (model self))) nm of
             None \<Rightarrow> Inl (KeyError nm)
           | Some n \<Rightarrow> Inr n))"

fun getitems :: "'w vb \<Rightarrow> 'w node_ref list \<Rightarrow> exn + 'w node list" where
  "getitems self [] = Inr []"
| "getitems self (r # rs) =
     (case getitem self r of
        Inl e \<Rightarrow> Inl e
      | Inr n \<Rightarrow> (case getitems self rs of Inl e \<Rightarrow> Inl e | Inr ns \<Rightarrow> Inr (n # ns)))"

fun load_nodes :: "'w node list \<Rightarrow> h5file \<Rightarrow> 'w \<Rightarrow> exn option \<times> 'w" where
  "load_nodes [] h5f w = (None, w)"
| "load_nodes (n # ns) h5f w =
     (if name n = [] then
        (Some (Exception ''In order to load nodes, they must have (unique) names.''), w)
      else case node_load n of
        None \<Rightarrow> load_nodes ns h5f w
      | Some f \<Rightarrow>
          (case (case h5_nodes h5f of None \<Rightarrow> None | Some g \<Rightarrow> map_of g (name n)) of
             None \<Rightarrow> (Some (Exception (''File does not contain variable '' @ name n)), w)
           | Some sub \<Rightarrow>
               (case f sub w of
                  (Some (KeyError k), w') \<Rightarrow>
                    (Some (Exception (''File does not contain variable '' @ name n)), w')
                | (Some e, w') \<Rightarrow> (Some e, w')
                | (None, w') \<Rightarrow> load_nodes ns h5f w')))"

fun read_boundterms ::
  "'w node list \<Rightarrow> (string \<times> pyfloat list) list option \<Rightarrow> (nat \<rightharpoonup> pyfloat list)
     \<Rightarrow> exn option \<times> (nat \<rightharpoonup> pyfloat list)"
where
  "read_boundterms [] bt lm = (None, lm)"
| "read_boundterms (n # ns) bt lm =
     (case (case bt of None \<Rightarrow> None | Some g \<Rightarrow> map_of g (name n)) of
        None \<Rightarrow> (Some (KeyError (name n)), lm)
      | Some xs \<Rightarrow> read_boundterms ns bt (lm(ident n \<mapsto> xs)))"

definition load ::
  "'w vb \<Rightarrow> 'w node_ref list \<Rightarrow> string option \<Rightarrow> 'w env \<Rightarrow> exn option \<times> 'w vb \<times> 'w env"
where
  "load self refs fn env =
     (case resolve_filename self fn of
        Inl e \<Rightarrow> (Some e, self, env)
      | Inr p \<Rightarrow>
          (case files env p of
             None \<Rightarrow> (Some (IOError p), self, env)
           | Some h5f \<Rightarrow>
               (case (if length refs = 0 then Inr (model self) else getitems self refs) of
                  Inl e \<Rightarrow> (Some e, self, env)
                | Inr ns \<Rightarrow>
                    (case load_nodes ns h5f (world env) of
                       (Some e, w) \<Rightarrow> (Some e, self, env\<lparr> world := w \<rparr>)
                     | (None, w) \<Rightarrow>
                         (case h5_L h5f of
                            None \<Rightarrow> (Some (KeyError ''L''), self, env\<lparr> world := w \<rparr>)
                          | Some newL \<Rightarrow>
                              (case h5_iter h5f of
                                 None \<Rightarrow>
                                   (Some (KeyError ''iter''), self\<lparr> L := newL \<rparr>,
                                    env\<lparr> world := w \<rparr>)
                               | Some it \<Rightarrow>
                                   (case read_boundterms (model self) (h5_boundterms h5f)
                                           (l self) of
                                      (r, lm) \<Rightarrow>
                                        (r, self\<lparr> L := newL, iter := it, l := lm \<rparr>,
                                         env\<lparr> world := w \<rparr>))))))))"

section \<open>The update loop\<close>

text \<open>The loop \<^verbatim>\<open>for node in nodes\<close> of a round: nodes without \<^verbatim>\<open>update\<close> are skipped.\<close>

fun update_nodes :: "'w node list \<Rightarrow> 'w \<Rightarrow> exn option \<times> 'w" where
  "update_nodes [] w = (None, w)"
| "update_nodes (n # ns) w =
     (case node_update n of
        None \<Rightarrow> update_nodes ns w
      | Some f \<Rightarrow>
          (case f w of
             (Some e, w') \<Rightarrow> (Some e, w')
           | (None, w') \<Rightarrow> update_nodes ns w'))"

text \<open>
  The loop of \<^verbatim>\<open>loglikelihood_lowerbound\<close>: \<open>acc\<close> is the local \<^verbatim>\<open>L\<close>, \<open>it\<close> is
  \<^verbatim>\<open>self.iter\<close> and \<open>lm\<close> the dictionary \<^verbatim>\<open>self.l\<close>, written at slot \<open>it\<close>. A missing
  key and a slot outside the array raise.
\<close>

fun lowerbound_loop ::
  "'w node list \<Rightarrow> pyfloat \<Rightarrow> nat \<Rightarrow> (nat \<rightharpoonup> pyfloat list) \<Rightarrow> 'w
     \<Rightarrow> (exn + pyfloat) \<times> (nat \<rightharpoonup> pyfloat list) \<times> 'w"
where
  "lowerbound_loop [] acc it lm w = (Inr acc, lm, w)"
| "lowerbound_loop (n # ns) acc it lm w =
     (case lower_bound_contribution n w of
        (Inl e, w') \<Rightarrow> (Inl e, lm, w')
      | (Inr lp, w') \<Rightarrow>
          (case lm (ident n) of
             None \<Rightarrow> (Inl (KeyError (name n)), lm, w')
           | Some xs \<Rightarrow>
               (if it < length xs
                then lowerbound_loop ns (fadd acc lp) it (lm(ident n \<mapsto> xs[it := lp])) w'
                else (Inl IndexError, lm, w'))))"

definition loglikelihood_lowerbound ::
  "'w vb \<Rightarrow> 'w \<Rightarrow> (exn + pyfloat) \<times> 'w vb \<times> 'w"
where
  "loglikelihood_lowerbound self w =
     (case lowerbound_loop (model self) (Fin 0) (iter self) (l self) w of
        (r, lm, w') \<Rightarrow> (r, self\<lparr> l := lm \<rparr>, w'))"

text \<open>
  "Check the progress of the iteration": the events of the two tests on the new bound
  \<open>b\<close>. Reading \<^verbatim>\<open>self.L[self.iter-1]\<close> outside the array raises.
\<close>

definition check_progress :: "'w vb \<Rightarrow> pyfloat \<Rightarrow> exn + event list" where
  "check_progress self b =
     (if iter self > 0 then
        (if iter self - 1 < length (L self) then
           Inr ((if fgt (fsub (L self ! (iter self - 1)) b) (Fin (1 / 10 ^ 6))
                 then [Warning (fsub (L self ! (iter self - 1)) b)] else [])
                @ (if flt (fsub b (L self ! (iter self - 1))) (Fin (1 / 10 ^ 12))
                   then [Converged] else []))
         else Inl IndexError)
      else Inr [])"

definition autosave_due :: "'w vb \<Rightarrow> bool" where
  "autosave_due self \<longleftrightarrow>
     autosave_iterations self > 0 \<and> (int (iter self) + 1) mod autosave_iterations self = 0"

definition autosave :: "'w vb \<Rightarrow> 'w env \<Rightarrow> exn option \<times> 'w env" where
  "autosave self env =
     (if autosave_due self then
        (case save self (Some (autosave_filename self)) env of
           (Some e, env') \<Rightarrow> (Some e, env')
         | (None, env') \<Rightarrow> (None, env'\<lparr> out := out env' @ [Autosaved (autosave_filename self)] \<rparr>))
      else (None, env))"

text \<open>One pass through the body of \<^verbatim>\<open>for i in range(repeat)\<close>.\<close>

definition update_round :: "'w node list \<Rightarrow> 'w vb \<Rightarrow> 'w env \<Rightarrow> exn option \<times> 'w vb \<times> 'w env" where
  "update_round nodes self env =
     (case update_nodes nodes (world env) of
        (Some e, w1) \<Rightarrow> (Some e, self, env\<lparr> world := w1 \<rparr>)
      | (None, w1) \<Rightarrow>
          (case loglikelihood_lowerbound self w1 of
             (Inl e, s2, w2) \<Rightarrow> (Some e, s2, env\<lparr> world := w2 \<rparr>)
           | (Inr b, s2, w2) \<Rightarrow>
               (let env2 = env\<lparr> world := w2, out := out env @ [Iteration (iter s2 + 1) b] \<rparr>
                in case check_progress s2 b of
                     Inl e \<Rightarrow> (Some e, s2, env2)
                   | Inr evs \<Rightarrow>
                       (case autosave s2 (env2\<lparr> out := out env2 @ evs \<rparr>) of
                          (Some e, env4) \<Rightarrow> (Some e, s2, env4)
                        | (None, env4) \<Rightarrow>
                            (if iter s2 < length (L s2)
                             then (None, s2\<lparr> L := (L s2)[iter s2 := b], iter := iter s2 + 1 \<rparr>,
                                   env4)
                             else (Some IndexError, s2, env4))))))"

fun update_loop :: "nat \<Rightarrow> 'w node list \<Rightarrow> 'w vb \<Rightarrow> 'w env \<Rightarrow> exn option \<times> 'w vb \<times> 'w env" where
  "update_loop 0 nodes self env = (None, self, env)"
| "update_loop (Suc k) nodes self env =
     (case update_round nodes self env of
        (Some e, s', env') \<Rightarrow> (Some e, s', env')
      | (None, s', env') \<Rightarrow> update_loop k nodes s' env')"

text \<open>
  \<^verbatim>\<open>VB.update\<close>: all the slots of the call are appended first, then the rounds run. The
  repeat count is a natural number (the array library refuses a negative one).
\<close>

definition update :: "'w vb \<Rightarrow> 'w node list \<Rightarrow> nat \<Rightarrow> 'w env \<Rightarrow> exn option \<times> 'w vb \<times> 'w env" where
  "update self nodes repeat env =
     (let s1 = self\<lparr> L := L self @ nans repeat,
                     l := (\<lambda>k. map_option (\<lambda>xs. xs @ nans repeat) (l self k)) \<rparr>
      in update_loop repeat (if length nodes = 0 then model s1 else nodes) s1 env)"


definition ledger_shape :: "'w vb \<Rightarrow> bool" where
  "ledger_shape s \<longleftrightarrow>
     iter s \<le> length (L s) \<and>
     (\<forall>i<length (L s). iter s \<le> i \<longrightarrow> L s ! i = NaN) \<and>
     (\<forall>n\<in>set (model s). \<exists>xs. l s (ident n) = Some xs \<and> length xs = length (L s))"



text \<open>The slots appended at the start of \<^verbatim>\<open>update\<close>.\<close>

definition reserve :: "nat \<Rightarrow> 'w vb \<Rightarrow> 'w vb" where
  "reserve k s = s\<lparr> L := L s @ nans k, l := (\<lambda>x. map_option (\<lambda>xs. xs @ nans k) (l s x)) \<rparr>"



definition autosave_safe :: "'w vb \<Rightarrow> bool" where
  "autosave_safe s \<longleftrightarrow>
     autosave_iterations s \<le> 0 \<or>
     (autosave_filename s \<noteq> [] \<and> (\<forall>n\<in>set (model s). name n \<noteq> []) \<and>
      distinct (map name (model s)))"



fun autosaves :: "nat \<Rightarrow> event list \<Rightarrow> (nat \<times> string) list" where
  "autosaves cur [] = []"
| "autosaves cur (Iteration i b # es) = autosaves i es"
| "autosaves cur (Autosaved p # es) = (cur, p) # autosaves cur es"
| "autosaves cur (Warning d # es) = autosaves cur es"
| "autosaves cur (Converged # es) = autosaves cur es"

definition round_start :: "event list \<Rightarrow> bool" where
  "round_start evs = (case evs of [] \<Rightarrow> True | Iteration i b # es \<Rightarrow> True | _ \<Rightarrow> False)"




text \<open>
  No autosave of the loop \<open>s0\<close> raises: whatever the ledger (of the shape every call
  keeps) and whatever the node internals, the file system and the output, the autosave
  step of a round of a loop with the model and the checkpoint configuration of \<open>s0\<close>
  returns.
\<close>

definition autosave_never_raises :: "'w vb \<Rightarrow> bool" where
  "autosave_never_raises s0 \<longleftrightarrow>
     (\<forall>s e. model s = model s0 \<and> autosave_iterations s = autosave_iterations s0 \<and>
            autosave_filename s = autosave_filename s0 \<and> filename s = filename s0 \<and>
            ledger_shape s \<longrightarrow> fst (autosave s e) = None)"

section \<open>Example nodes\<close>

text \<open>
  The nodes of the spec's example. The state of the node internals is the number of
  times \<open>A\<close> has been updated; \<open>A\<close> contributes 1.0, 1.5 and 1.5000000000005 in the
  first three rounds, \<open>B\<close> is fixed and contributes 0.5.
\<close>

definition nodeA :: "nat node" where
  "nodeA = \<lparr> ident = 0, name = ''A'',
     node_update = Some (\<lambda>w. (None, w + 1)),
     lower_bound_contribution =
       (\<lambda>w. (Inr (Fin (if w \<le> 1 then 1 else if w = 2 then 3 / 2
                          else 15000000000005 / 10 ^ 13)), w)),
     node_save = None, node_load = None \<rparr>"

definition nodeB :: "nat node" where
  "nodeB = \<lparr> ident = 1, name = ''B'', node_update = None,
     lower_bound_contribution = (\<lambda>w. (Inr (Fin (1 / 2)), w)),
     node_save = None, node_load = None \<rparr>"

text \<open>A node whose bound drops from 2 to 1 after its first round.\<close>

definition nodeD :: "nat node" where
  "nodeD = \<lparr> ident = 0, name = ''D'',
     node_update = Some (\<lambda>w. (None, w + 1)),
     lower_bound_contribution = (\<lambda>w. (Inr (Fin (if w \<le> 1 then 2 else 1)), w)),
     node_save = None, node_load = None \<rparr>"

text \<open>Two distinct nodes of the same name.\<close>

definition twin1 :: "nat node" where
  "twin1 = \<lparr> ident = 0, name = ''x'', node_update = None,
     lower_bound_contribution = (\<lambda>w. (Inr (Fin 1), w)),
     node_save = None, node_load = None \<rparr>"

definition twin2 :: "nat node" where
  "twin2 = \<lparr> ident = 1, name = ''x'', node_update = None,
     lower_bound_contribution = (\<lambda>w. (Inr (Fin 1), w)),
     node_save = None, node_load = None \<rparr>"

text \<open>A node whose \<^verbatim>\<open>update\<close> raises, a node without a name, and a node whose bound is NaN.\<close>

definition nodeBroken :: "nat node" where
  "nodeBroken = \<lparr> ident = 0, name = ''broken'',
     node_update = Some (\<lambda>w. (Some (Exception ''update failed''), w)),
     lower_bound_contribution = (\<lambda>w. (Inr (Fin 1), w)),
     node_save = None, node_load = None \<rparr>"



definition env0 :: "nat env" where
  "env0 = \<lparr> world = 0, files = Map.empty, out = [] \<rparr>"

text \<open>A loop over the given nodes, as the constructor returns it.\<close>

definition fresh :: "'w node list \<Rightarrow> int \<Rightarrow> string option \<Rightarrow> 'w vb" where
  "fresh nodes c fn = projr (init nodes c fn (tmpfile_name ''/tmp'' ''20240101000000'' ''abc''))"


section \<open>Lemmas about the loop\<close>


lemma lowerbound_loop_frame:
  "lowerbound_loop ns acc it lm w = (r, lm', w') \<Longrightarrow>
   (case lm k of None \<Rightarrow> lm' k = None
    | Some xs \<Rightarrow> (\<exists>ys. lm' k = Some ys \<and> length ys = length xs \<and> (\<forall>i. i \<noteq> it \<longrightarrow> ys ! i = xs ! i)))"
proof (induction ns arbitrary: acc lm w)
  case Nil
  then show ?case by (auto split: option.splits)
next
  case (Cons n ns)
  show ?case
  proof (cases "lower_bound_contribution n w")
    case (Pair a w1)
    show ?thesis
    proof (cases a)
      case (Inl e)
      with Pair Cons.prems show ?thesis by (auto split: option.splits)
    next
      case (Inr lp)
      show ?thesis
      proof (cases "lm (ident n)")
        case None
        with Pair Inr Cons.prems show ?thesis by (auto split: option.splits)
      next
        case (Some xs)
        show ?thesis
        proof (cases "it < length xs")
          case False
          with Pair Inr Some Cons.prems show ?thesis by (auto split: option.splits)
        next
          case True
          with Pair Inr Some Cons.prems
          have rec: "lowerbound_loop ns (fadd acc lp) it (lm(ident n \<mapsto> xs[it := lp])) w1 = (r, lm', w')"
            by simp
          from Cons.IH[OF rec, of ] Some show ?thesis
            by (cases "k = ident n") (auto split: option.splits)
        qed
      qed
    qed
  qed
qed


lemma loglikelihood_lowerbound_unfold:
  "loglikelihood_lowerbound s w = (r, s2, w2) \<Longrightarrow>
   \<exists>lm'. s2 = s\<lparr> l := lm' \<rparr> \<and> lowerbound_loop (model s) (Fin 0) (iter s) (l s) w = (r, lm', w2)"
  by (auto simp: loglikelihood_lowerbound_def split: prod.splits)

lemma lowerbound_loop_keeps_length:
  assumes "lowerbound_loop ns acc it lm w = (r, lm', w')" and "lm k = Some xs"
  shows "\<exists>ys. lm' k = Some ys \<and> length ys = length xs \<and> (\<forall>i. i \<noteq> it \<longrightarrow> ys ! i = xs ! i)"
  using lowerbound_loop_frame[OF assms(1), of k] assms(2) by simp


lemma update_round_fields:
  "update_round ns s env = (r, s', env') \<Longrightarrow>
   model s' = model s \<and> autosave_iterations s' = autosave_iterations s \<and>
   autosave_filename s' = autosave_filename s \<and> filename s' = filename s \<and>
   length (L s') = length (L s)"
  by (auto simp: update_round_def Let_def
      split: prod.splits option.splits sum.splits if_splits
      dest!: loglikelihood_lowerbound_unfold)

lemma update_round_iter:
  "update_round ns s env = (r, s', env') \<Longrightarrow>
   iter s' = (if r = None then iter s + 1 else iter s)"
  by (auto simp: update_round_def Let_def
      split: prod.splits option.splits sum.splits if_splits
      dest!: loglikelihood_lowerbound_unfold)

lemma update_round_shape:
  assumes "update_round ns s env = (r, s', env')" and "ledger_shape s"
  shows "ledger_shape s'"
proof -
  have keys: "\<And>lm' rr w w2 n. lowerbound_loop (model s) (Fin 0) (iter s) (l s) w = (rr, lm', w2)
        \<Longrightarrow> n \<in> set (model s) \<Longrightarrow> \<exists>xs. lm' (ident n) = Some xs \<and> length xs = length (L s)"
  proof -
    fix lm' rr w w2 n
    assume a: "lowerbound_loop (model s) (Fin 0) (iter s) (l s) w = (rr, lm', w2)"
      and n: "n \<in> set (model s)"
    from assms(2) n obtain xs where "l s (ident n) = Some xs" "length xs = length (L s)"
      by (auto simp: ledger_shape_def)
    with lowerbound_loop_keeps_length[OF a this(1)]
    show "\<exists>xs. lm' (ident n) = Some xs \<and> length xs = length (L s)" by auto
  qed
  from assms show ?thesis
    by (auto simp: update_round_def Let_def ledger_shape_def
      split: prod.splits option.splits sum.splits if_splits
      dest!: loglikelihood_lowerbound_unfold dest: keys)
qed




lemma update_loop_fields:
  "update_loop k ns s env = (r, s', env') \<Longrightarrow>
   model s' = model s \<and> autosave_iterations s' = autosave_iterations s \<and>
   autosave_filename s' = autosave_filename s \<and> filename s' = filename s \<and>
   length (L s') = length (L s)"
proof (induction k arbitrary: s env)
  case 0
  then show ?case by simp
next
  case (Suc k)
  obtain r1 s1 env1 where r: "update_round ns s env = (r1, s1, env1)"
    by (cases "update_round ns s env") auto
  note f = update_round_fields[OF r]
  show ?case
  proof (cases r1)
    case None
    with r Suc.prems(1) have "update_loop k ns s1 env1 = (r, s', env')" by simp
    from Suc.IH[OF this] f show ?thesis by simp
  next
    case (Some e)
    with r Suc.prems(1) have "s' = s1" by simp
    with f show ?thesis by simp
  qed
qed

lemma update_reserve:
  "update s ns k env = update_loop k (if length ns = 0 then model s else ns) (reserve k s) env"
  by (simp add: update_def reserve_def Let_def)

lemma reserve_shape: "ledger_shape s \<Longrightarrow> ledger_shape (reserve k s)"
  by (auto simp: ledger_shape_def reserve_def nans_def nth_append)

















lemma save_out: "save s fn env = (r, env') \<Longrightarrow> out env' = out env"
  by (auto simp: save_def split: sum.splits prod.splits option.splits)

lemma save_written:
  "save s (Some p) env = (None, env') \<Longrightarrow> p \<noteq> [] \<Longrightarrow>
   \<exists>h. files env' p = Some h \<and> h5_L h = Some (L s) \<and> h5_iter h = Some (iter s)"
  by (auto simp: save_def resolve_filename_def falsy_def split: sum.splits prod.splits option.splits)


lemma autosave_out:
  "autosave s env = (r, env') \<Longrightarrow>
   out env' = out env @ (if r = None \<and> autosave_due s then [Autosaved (autosave_filename s)] else [])"
  by (auto simp: autosave_def split: if_splits prod.splits option.splits dest: save_out)




lemma autosaves_round_start: "round_start evs \<Longrightarrow> autosaves c evs = autosaves c' evs"
  by (cases evs) (auto simp: round_start_def split: event.splits)









lemma reserve_fields:
  "model (reserve k s) = model s" "iter (reserve k s) = iter s"
  "length (L (reserve k s)) = length (L s) + k"
  "autosave_iterations (reserve k s) = autosave_iterations s"
  "autosave_filename (reserve k s) = autosave_filename s"
  "autosave_safe (reserve k s) = autosave_safe s"
  "autosave_never_raises (reserve k s) = autosave_never_raises s"
  by (simp_all add: reserve_def nans_def autosave_safe_def autosave_never_raises_def)






lemmas eval_defs = fresh_def init_def unique_def falsy_def tmpfile_name_def Let_def
  update_def nans_def update_round_def loglikelihood_lowerbound_def check_progress_def
  autosave_def autosave_due_def fgt_def env0_def save_def resolve_filename_def
  eval_nat_numeral

lemma init_total: "init nodes c fn tmp = Inr (projr (init nodes c fn tmp))"
  by (simp add: init_def Let_def)







section \<open>The recorded bound is the sum over the model\<close>




section \<open>Construction over nodes that share a name\<close>

text \<open>
  Claim C3 says that constructing a loop over two distinct nodes of the same name raises.
  The constructor compares the length of the list of names with the length of the
  model, which are always equal, so it never raises: for the two nodes \<open>twin1\<close> and
  \<open>twin2\<close>, both named \<^verbatim>\<open>x\<close>, it returns a loop over both of them, and a following
  \<^verbatim>\<open>update()\<close> runs a round on that loop and records the bound 2.
\<close>

theorem duplicate_names_accepted:
  "init [twin1, twin2] 0 None ''/tmp/vb_autosave_20240101000000_abc.hdf5'' =
     Inr \<lparr> model = [twin1, twin2], iter = 0, L = [],
           l = map_of [(0, []), (1, [])],
           autosave_iterations = 0,
           autosave_filename = ''/tmp/vb_autosave_20240101000000_abc.hdf5'',
           filename = None \<rparr>
   \<and> name twin1 = name twin2 \<and> ident twin1 \<noteq> ident twin2
   \<and> fst (update (fresh [twin1, twin2] 0 None) [] 1 env0) = None
   \<and> L (fst (snd (update (fresh [twin1, twin2] 0 None) [] 1 env0))) = [Fin 2]"
  by (simp add: eval_defs twin1_def twin2_def)

lemma update_loop_failed:
  assumes "ledger_shape s" and "update_loop k ns s env = (Some x, s', env')"
  shows "iter s \<le> iter s' \<and> iter s' < iter s + k \<and> ledger_shape s'"
  using assms
proof (induction k arbitrary: s env)
  case 0
  then show ?case by simp
next
  case (Suc k)
  obtain r1 s1 env1 where r: "update_round ns s env = (r1, s1, env1)"
    by (cases "update_round ns s env") auto
  from update_round_shape[OF r Suc.prems(1)] have sh1: "ledger_shape s1" .
  show ?case
  proof (cases r1)
    case None
    with r Suc.prems(2) have lp: "update_loop k ns s1 env1 = (Some x, s', env')" by simp
    from update_round_iter[OF r] None have "iter s1 = iter s + 1" by simp
    with Suc.IH[OF sh1 lp] show ?thesis by simp
  next
    case (Some y)
    with r Suc.prems(2) have "s' = s1" by simp
    moreover from update_round_iter[OF r] Some have "iter s1 = iter s" by simp
    ultimately show ?thesis using sh1 by simp
  qed
qed

section \<open>A call that raises\<close>

text \<open>
  Claim C6, amended. Let the ledger have the shape that every call keeps (as many slots
  in each per-node series as in \<open>L\<close>, at least \<open>iter\<close> of them, NaN in \<open>L\<close> from
  slot \<open>iter\<close> on). If \<^verbatim>\<open>update(repeat=k)\<close> raises, then \<open>iter\<close> has grown by the
  number of rounds completed before the failure, which is less than \<open>k\<close>, and nothing
  is truncated: \<open>L\<close> and every per-node series keep all the \<open>k\<close> slots appended at the
  start of the call, and the slot of the failed round in \<open>L\<close>, like every later one,
  still holds NaN.
\<close>

theorem failed_update_keeps_reserved_slots:
  assumes "ledger_shape s" and "update s ns k e = (Some x, s', e')"
  shows "iter s \<le> iter s' \<and> iter s' < iter s + k \<and>
    length (L s') = length (L s) + k \<and>
    (\<forall>n\<in>set (model s'). \<exists>xs. l s' (ident n) = Some xs \<and> length xs = length (L s')) \<and>
    (\<forall>i<length (L s'). iter s' \<le> i \<longrightarrow> L s' ! i = NaN) \<and>
    L s' ! iter s' = NaN"
proof -
  let ?ns = "if length ns = 0 then model s else ns"
  from assms(2) have lp: "update_loop k ?ns (reserve k s) e = (Some x, s', e')"
    by (simp add: update_reserve)
  from update_loop_failed[OF reserve_shape[OF assms(1)] lp]
  have it: "iter s \<le> iter s'" "iter s' < iter s + k" and sh: "ledger_shape s'"
    by (simp_all add: reserve_fields)
  from update_loop_fields[OF lp] have len: "length (L s') = length (L s) + k"
    by (simp add: reserve_fields)
  from assms(1) have "iter s \<le> length (L s)" by (simp add: ledger_shape_def)
  with it len have lt: "iter s' < length (L s')" by simp
  from sh have keys: "\<forall>n\<in>set (model s'). \<exists>xs. l s' (ident n) = Some xs \<and> length xs = length (L s')"
    and nan: "\<forall>i<length (L s'). iter s' \<le> i \<longrightarrow> L s' ! i = NaN"
    by (simp_all add: ledger_shape_def)
  from nan lt have "L s' ! iter s' = NaN" by simp
  with it len keys nan show ?thesis by blast
qed

text \<open>The theorem at a loop over one node whose \<^verbatim>\<open>update\<close> raises.\<close>

theorem failed_update_keeps_reserved_slots_witness:
  "ledger_shape (fresh [nodeBroken] 0 None) \<and>
   fst (update (fresh [nodeBroken] 0 None) [] 1 env0) = Some (Exception ''update failed'') \<and>
   iter (fst (snd (update (fresh [nodeBroken] 0 None) [] 1 env0))) < 0 + 1 \<and>
   length (L (fst (snd (update (fresh [nodeBroken] 0 None) [] 1 env0)))) = 0 + 1 \<and>
   L (fst (snd (update (fresh [nodeBroken] 0 None) [] 1 env0))) !
     iter (fst (snd (update (fresh [nodeBroken] 0 None) [] 1 env0))) = NaN"
proof -
  let ?s = "fresh [nodeBroken] 0 None"
  let ?u = "update ?s [] 1 env0"
  have a: "ledger_shape ?s" by (simp add: ledger_shape_def eval_defs nodeBroken_def)
  have b: "fst ?u = Some (Exception ''update failed'')" by (simp add: eval_defs nodeBroken_def)
  then have c: "?u = (Some (Exception ''update failed''), fst (snd ?u), snd (snd ?u))"
    by (metis prod.collapse)
  have d: "iter ?s = 0" "length (L ?s) = 0" by (simp_all add: eval_defs)
  from failed_update_keeps_reserved_slots[OF a c] a b d show ?thesis by simp
qed

text \<open>
  Claim C6 as stated fails there: after the failed first round of a fresh loop the
  ledger is not back at its empty state but holds one reserved NaN slot in \<open>L\<close> and
  in the node's series.
\<close>

theorem failed_update_not_truncated:
  "fst (update (fresh [nodeBroken] 0 None) [] 1 env0) = Some (Exception ''update failed'') \<and>
   iter (fst (snd (update (fresh [nodeBroken] 0 None) [] 1 env0))) = 0 \<and>
   L (fst (snd (update (fresh [nodeBroken] 0 None) [] 1 env0))) = [NaN] \<and>
   l (fst (snd (update (fresh [nodeBroken] 0 None) [] 1 env0))) (ident nodeBroken) = Some [NaN]"
  by (simp add: eval_defs nodeBroken_def)






section \<open>The ledger over a sequence of calls\<close>




section \<open>Autosave cadence\<close>



lemma save_ignores_out:
  "save s fn (e\<lparr> out := ev \<rparr>) = (fst (save s fn e), (snd (save s fn e))\<lparr> out := ev \<rparr>)"
  by (simp add: save_def split: sum.splits prod.splits option.splits)

lemma autosave_ignores_out: "fst (autosave s (e\<lparr> out := ev \<rparr>)) = fst (autosave s e)"
  by (simp add: autosave_def save_ignores_out split: prod.splits option.splits)

lemma update_round_after_bound:
  assumes un: "update_nodes ns (world e) = (None, w1)"
    and ll: "loglikelihood_lowerbound s w1 = (Inr b, s2, w2)"
    and cp: "check_progress s b = Inr evs"
  shows "\<exists>r s' e' more. update_round ns s e = (r, s', e') \<and>
      r = (case fst (autosave s2 (e\<lparr> world := w2 \<rparr>)) of
             Some x \<Rightarrow> Some x
           | None \<Rightarrow> if iter s < length (L s) then None else Some IndexError) \<and>
      out e' = out e @ Iteration (iter s + 1) b # evs @ more \<and>
      (r = None \<longrightarrow> s' = s2\<lparr> L := (L s)[iter s := b], iter := iter s + 1 \<rparr>)"
proof -
  from loglikelihood_lowerbound_unfold[OF ll] obtain lm' where s2: "s2 = s\<lparr> l := lm' \<rparr>"
    by blast
  then have f: "iter s2 = iter s" "L s2 = L s" by simp_all
  have "check_progress s2 b = check_progress s b" by (simp add: check_progress_def f)
  with cp have cp2: "check_progress s2 b = Inr evs" by simp
  define e3 where "e3 = e\<lparr> world := w2, out := out e @ Iteration (iter s + 1) b # evs \<rparr>"
  obtain r4 e4 where as: "autosave s2 e3 = (r4, e4)" by (cases "autosave s2 e3") auto
  have "e3 = (e\<lparr> world := w2 \<rparr>)\<lparr> out := out e @ Iteration (iter s + 1) b # evs \<rparr>"
    by (simp add: e3_def)
  then have "fst (autosave s2 e3) = fst (autosave s2 (e\<lparr> world := w2 \<rparr>))"
    by (simp only: autosave_ignores_out)
  with as have r4: "fst (autosave s2 (e\<lparr> world := w2 \<rparr>)) = r4" by simp
  from autosave_out[OF as] have o4: "out e4 = out e @ Iteration (iter s + 1) b # evs @
     (if r4 = None \<and> autosave_due s2 then [Autosaved (autosave_filename s2)] else [])"
    by (simp add: e3_def)
  have ur: "update_round ns s e =
     (case r4 of
        Some x \<Rightarrow> (Some x, s2, e4)
      | None \<Rightarrow> if iter s < length (L s)
                then (None, s2\<lparr> L := (L s)[iter s := b], iter := iter s + 1 \<rparr>, e4)
                else (Some IndexError, s2, e4))"
    using un ll cp2 as f by (simp add: update_round_def e3_def split: option.splits)
  show ?thesis
  proof (cases r4)
    case (Some x)
    with ur r4 o4 show ?thesis by simp
  next
    case None
    with ur r4 o4 show ?thesis by (cases "iter s < length (L s)") simp_all
  qed
qed

lemma regression_events:
  assumes "0 < iter s" and "iter s \<le> length (L s)"
    and "fgt (fsub (L s ! (iter s - 1)) b) (Fin (1 / 10 ^ 6))"
  shows "check_progress s b = Inr [Warning (fsub (L s ! (iter s - 1)) b), Converged]"
proof -
  from assms(3) obtain p q where pq: "L s ! (iter s - 1) = Fin p" "b = Fin q"
    by (cases "L s ! (iter s - 1)"; cases b) (simp_all add: fgt_def)
  with assms(3) have "1 / 10 ^ 6 < p - q" by (simp add: fgt_def)
  then have "q - p < 1 / 10 ^ 12" by simp
  with pq have "flt (fsub b (L s ! (iter s - 1))) (Fin (1 / 10 ^ 12))" by simp
  with assms show ?thesis by (simp add: check_progress_def)
qed


section \<open>The regression warning\<close>


section \<open>Warning and convergence report together\<close>

text \<open>
  Claim C10. In every round after the first (\<open>0 < iter\<close>, the bound of the round before
  readable) in which the node updates and the computation of the bound do not raise
  and the new bound is lower than the recorded one by more than \<open>1e-6\<close>, the test for
  convergence holds as well, and the round emits, right after its progress line, both
  the warning and the line \<^verbatim>\<open>Converged.\<close>
\<close>

theorem decrease_warns_and_reports_convergence:
  assumes "0 < iter s" and "iter s \<le> length (L s)"
    and "update_nodes ns (world e) = (None, w1)"
    and "loglikelihood_lowerbound s w1 = (Inr b, s2, w2)"
    and "fgt (fsub (L s ! (iter s - 1)) b) (Fin (1 / 10 ^ 6))"
  shows "flt (fsub b (L s ! (iter s - 1))) (Fin (1 / 10 ^ 12)) \<and>
     (\<exists>r s' e' more. update_round ns s e = (r, s', e') \<and>
        out e' = out e @ Iteration (iter s + 1) b #
                   Warning (fsub (L s ! (iter s - 1)) b) # Converged # more)"
proof -
  note cp = regression_events[OF assms(1,2,5)]
  from cp assms(1,2) have conv: "flt (fsub b (L s ! (iter s - 1))) (Fin (1 / 10 ^ 12))"
    by (simp add: check_progress_def split: if_splits)
  from update_round_after_bound[OF assms(3,4) cp] conv show ?thesis by auto
qed


text \<open>The theorem in the same round: the log shows both lines.\<close>

theorem decrease_warns_and_reports_convergence_witness:
  "0 < iter (reserve 1 (fst (snd (update (fresh [nodeD] 0 None) [] 1 env0)))) \<and>
   fgt (fsub (L (reserve 1 (fst (snd (update (fresh [nodeD] 0 None) [] 1 env0)))) ! 0) (Fin 1))
       (Fin (1 / 10 ^ 6)) \<and>
   flt (fsub (Fin 1) (L (reserve 1 (fst (snd (update (fresh [nodeD] 0 None) [] 1 env0)))) ! 0))
       (Fin (1 / 10 ^ 12)) \<and>
   out (snd (snd (update (fresh [nodeD] 0 None) [] 2 env0))) =
     [Iteration 1 (Fin 2), Iteration 2 (Fin 1), Warning (Fin 1), Converged]"
proof -
  let ?u = "update (fresh [nodeD] 0 None) [] 1 env0"
  let ?s = "reserve 1 (fst (snd ?u))"
  let ?e = "snd (snd ?u)"
  let ?ll = "loglikelihood_lowerbound ?s 2"
  have h1: "0 < iter ?s" by (simp add: eval_defs reserve_def nodeD_def)
  have h2: "iter ?s \<le> length (L ?s)" by (simp add: eval_defs reserve_def nodeD_def)
  have h3: "update_nodes [nodeD] (world ?e) = (None, 2)"
    by (simp add: eval_defs reserve_def nodeD_def)
  have h4: "?ll = (Inr (Fin 1), fst (snd ?ll), 2)"
    by (simp add: eval_defs reserve_def nodeD_def)
  have h5: "fgt (fsub (L ?s ! (iter ?s - 1)) (Fin 1)) (Fin (1 / 10 ^ 6))"
    by (simp add: eval_defs reserve_def nodeD_def)
  have ev: "iter ?s = 1" by (simp add: eval_defs reserve_def nodeD_def)
  from decrease_warns_and_reports_convergence[OF h1 h2 h3 h4 h5] ev
  have conv: "flt (fsub (Fin 1) (L ?s ! 0)) (Fin (1 / 10 ^ 12))" by simp
  have full: "out (snd (snd (update (fresh [nodeD] 0 None) [] 2 env0))) =
     [Iteration 1 (Fin 2), Iteration 2 (Fin 1), Warning (Fin 1), Converged]"
    by (simp add: eval_defs nodeD_def)
  from h1 h5 ev conv full show ?thesis by simp
qed

lemma update_round_returned:
  assumes "update_round ns s e = (None, s', e')"
  shows "\<exists>w1 b s2 w2 evs. update_nodes ns (world e) = (None, w1) \<and>
     loglikelihood_lowerbound s w1 = (Inr b, s2, w2) \<and> check_progress s2 b = Inr evs \<and>
     autosave s2 (e\<lparr> world := w2, out := out e @ Iteration (iter s + 1) b # evs \<rparr>) = (None, e') \<and>
     iter s < length (L s) \<and> s' = s2\<lparr> L := (L s)[iter s := b], iter := iter s + 1 \<rparr>"
  using assms
  by (auto simp: update_round_def Let_def
      split: prod.splits option.splits sum.splits if_splits
      dest!: loglikelihood_lowerbound_unfold)

lemma autosave_written:
  assumes "autosave s e = (None, e')" and "autosave_due s" and "autosave_filename s \<noteq> []"
  shows "\<exists>h. files e' (autosave_filename s) = Some h \<and> h5_L h = Some (L s) \<and>
             h5_iter h = Some (iter s)"
proof -
  from assms(1,2) obtain e1 where sv: "save s (Some (autosave_filename s)) e = (None, e1)"
    and e': "e' = e1\<lparr> out := out e1 @ [Autosaved (autosave_filename s)] \<rparr>"
    by (auto simp: autosave_def split: prod.splits option.splits)
  from save_written[OF sv assms(3)] e' show ?thesis by simp
qed

section \<open>The convergence report\<close>



section \<open>What an autosave writes\<close>

text \<open>
  Claim C9. Take a round that returns, in a ledger of the shape every call keeps, with
  an autosave due (so the number \<open>k\<close> of the round is \<open>iter + 1\<close>) and a non-empty
  autosave file name. After the round the autosave file holds a checkpoint whose
  iteration count is \<open>iter = k - 1\<close> and whose series \<open>L\<close> is the one from before the
  round, with NaN at the slot of round \<open>k\<close>; yet the bound \<open>b\<close> of round \<open>k\<close> was
  computed and printed before, and the loop itself ends the round with \<open>b\<close> at that
  slot and \<open>iter = k\<close>.
\<close>

theorem autosave_checkpoint_precedes_commit:
  assumes "ledger_shape s" and "autosave_due s" and "autosave_filename s \<noteq> []"
    and "update_round ns s e = (None, s', e')"
  shows "\<exists>h b more. files e' (autosave_filename s) = Some h \<and>
     h5_iter h = Some (iter s) \<and> h5_L h = Some (L s) \<and>
     iter s < length (L s) \<and> L s ! iter s = NaN \<and>
     out e' = out e @ Iteration (iter s + 1) b # more \<and>
     L s' ! iter s = b \<and> iter s' = iter s + 1"
proof -
  from update_round_returned[OF assms(4)] obtain w1 b s2 w2 evs where
    ll: "loglikelihood_lowerbound s w1 = (Inr b, s2, w2)" and
    as: "autosave s2 (e\<lparr> world := w2, out := out e @ Iteration (iter s + 1) b # evs \<rparr>) = (None, e')" and
    lt: "iter s < length (L s)" and
    s': "s' = s2\<lparr> L := (L s)[iter s := b], iter := iter s + 1 \<rparr>"
    by blast
  from loglikelihood_lowerbound_unfold[OF ll] obtain lm' where s2: "s2 = s\<lparr> l := lm' \<rparr>"
    by blast
  with assms(2,3) have due2: "autosave_due s2" and fn2: "autosave_filename s2 \<noteq> []"
    by (simp_all add: autosave_due_def)
  from autosave_written[OF as due2 fn2] s2 obtain h where
    h: "files e' (autosave_filename s) = Some h" "h5_L h = Some (L s)" "h5_iter h = Some (iter s)"
    by auto
  from assms(1) lt have nan: "L s ! iter s = NaN" by (simp add: ledger_shape_def)
  from autosave_out[OF as] have o: "out e' = out e @ Iteration (iter s + 1) b #
      (evs @ (if autosave_due s2 then [Autosaved (autosave_filename s2)] else []))"
    by simp
  from s' lt have c: "L s' ! iter s = b" "iter s' = iter s + 1" by simp_all
  show ?thesis
    by (intro exI conjI) (rule h(1), rule h(3), rule h(2), rule lt, rule nan, rule o, rule c(1), rule c(2))
qed

text \<open>The theorem in the first round of a loop over \<open>[A, B]\<close> that autosaves every round.\<close>

theorem autosave_checkpoint_precedes_commit_witness:
  "ledger_shape (reserve 1 (fresh [nodeA, nodeB] 1 None)) \<and>
   autosave_due (reserve 1 (fresh [nodeA, nodeB] 1 None)) \<and>
   fst (update_round [nodeA, nodeB] (reserve 1 (fresh [nodeA, nodeB] 1 None)) env0) = None \<and>
   map_option h5_iter
     (files (snd (snd (update_round [nodeA, nodeB] (reserve 1 (fresh [nodeA, nodeB] 1 None)) env0)))
        ''/tmp/vb_autosave_20240101000000_abc.hdf5'') = Some (Some 0) \<and>
   map_option h5_L
     (files (snd (snd (update_round [nodeA, nodeB] (reserve 1 (fresh [nodeA, nodeB] 1 None)) env0)))
        ''/tmp/vb_autosave_20240101000000_abc.hdf5'') = Some (Some [NaN]) \<and>
   L (fst (snd (update_round [nodeA, nodeB] (reserve 1 (fresh [nodeA, nodeB] 1 None)) env0))) =
     [Fin (3 / 2)]"
proof -
  let ?s = "reserve 1 (fresh [nodeA, nodeB] 1 None)"
  let ?u = "update_round [nodeA, nodeB] ?s env0"
  have a: "ledger_shape ?s" by (simp add: ledger_shape_def eval_defs reserve_def)
  have b: "autosave_due ?s" by (simp add: eval_defs reserve_def)
  have c: "autosave_filename ?s \<noteq> []" by (simp add: eval_defs reserve_def)
  have n: "fst ?u = None" by (simp add: eval_defs reserve_def nodeA_def nodeB_def)
  then have d: "?u = (None, fst (snd ?u), snd (snd ?u))" by (metis prod.collapse)
  have f: "autosave_filename ?s = ''/tmp/vb_autosave_20240101000000_abc.hdf5''"
    "iter ?s = 0" "L ?s = [NaN]" by (simp_all add: eval_defs reserve_def)
  have g: "L (fst (snd ?u)) = [Fin (3 / 2)]"
    by (simp add: eval_defs reserve_def nodeA_def nodeB_def)
  from autosave_checkpoint_precedes_commit[OF a b c d] f
  obtain h where "files (snd (snd ?u)) ''/tmp/vb_autosave_20240101000000_abc.hdf5'' = Some h"
    "h5_iter h = Some 0" "h5_L h = Some [NaN]" by auto
  then have m1: "map_option h5_iter
     (files (snd (snd ?u)) ''/tmp/vb_autosave_20240101000000_abc.hdf5'') = Some (Some 0)"
    and m2: "map_option h5_L
     (files (snd (snd ?u)) ''/tmp/vb_autosave_20240101000000_abc.hdf5'') = Some (Some [NaN])"
    by simp_all
  show ?thesis by (intro conjI) (rule a, rule b, rule n, rule m1, rule m2, rule g)
qed

lemma resolve_explicit: "p \<noteq> [] \<Longrightarrow> resolve_filename s (Some p) = Inr p"
  by (simp add: resolve_filename_def falsy_def)

lemma resolve_default:
  "resolve_filename s None =
     (if falsy (filename s) then Inl (Exception ''Filename must be given.'')
      else Inr (the (filename s)))"
  by (simp add: resolve_filename_def falsy_def)

lemma save_touches_one_file:
  assumes "p \<noteq> []"
  shows "(\<forall>q. q \<noteq> p \<longrightarrow> files (snd (save s (Some p) e)) q = files e q) \<and>
         files (snd (save s (Some p) e)) p \<noteq> None"
  using assms
  by (simp add: save_def resolve_explicit split: prod.splits option.splits)

lemma load_reads_one_file:
  assumes "p \<noteq> []" and "files e2 p = files e p" and "world e2 = world e"
  shows "fst (load s refs (Some p) e2) = fst (load s refs (Some p) e) \<and>
         fst (snd (load s refs (Some p) e2)) = fst (snd (load s refs (Some p) e))"
  using assms
  by (simp add: load_def resolve_explicit split: prod.splits option.splits sum.splits)

section \<open>The file used by save and load\<close>

text \<open>
  Claim C8. A path is a non-empty string; Python takes the empty string, like
  \<^verbatim>\<open>None\<close>, for no path.

  First, for a loop constructed with the explicit autosave path \<open>p\<close>, \<^verbatim>\<open>save()\<close> and
  \<^verbatim>\<open>load()\<close> without a path do exactly what they do with the path \<open>p\<close>. Second, for a
  loop constructed without an autosave path, the autosave file name is the synthesized
  temporary name, but \<^verbatim>\<open>save()\<close> and \<^verbatim>\<open>load()\<close> without a path raise
  \<^verbatim>\<open>Exception("Filename must be given.")\<close> (the error the spec calls a configuration
  error) and leave the loop and the file system as they are. Third, on any loop,
  \<^verbatim>\<open>save(p)\<close> writes the file \<open>p\<close> (which the file system of the model always lets
  it open) and no other file, and \<^verbatim>\<open>load(filename=p)\<close>
  reads the file \<open>p\<close> only: it raises if there is no such file, and its exception and
  the loop it leaves are the same in any two file systems that agree on \<open>p\<close>.
\<close>

theorem save_load_default_path:
  "(init nodes1 c1 (Some p1) tmp1 = Inr s1 \<and> p1 \<noteq> [] \<longrightarrow>
      filename s1 = Some p1 \<and>
      save s1 None e = save s1 (Some p1) e \<and>
      load s1 refs None e = load s1 refs (Some p1) e) \<and>
   (init nodes2 c2 None tmp2 = Inr s2 \<longrightarrow>
      autosave_filename s2 = tmp2 \<and> filename s2 = None \<and>
      save s2 None e = (Some (Exception ''Filename must be given.''), e) \<and>
      load s2 refs None e = (Some (Exception ''Filename must be given.''), s2, e)) \<and>
   (p \<noteq> [] \<longrightarrow>
      (\<forall>q. q \<noteq> p \<longrightarrow> files (snd (save s (Some p) e)) q = files e q) \<and>
      files (snd (save s (Some p) e)) p \<noteq> None \<and>
      (files e p = None \<longrightarrow> load s refs (Some p) e = (Some (IOError p), s, e)) \<and>
      (files e' p = files e p \<and> world e' = world e \<longrightarrow>
         fst (load s refs (Some p) e') = fst (load s refs (Some p) e) \<and>
         fst (snd (load s refs (Some p) e')) = fst (snd (load s refs (Some p) e))))"
proof (intro conjI impI)
  assume a: "init nodes1 c1 (Some p1) tmp1 = Inr s1 \<and> p1 \<noteq> []"
  then have f: "filename s1 = Some p1" by (auto simp: init_def Let_def falsy_def)
  from a have r: "resolve_filename s1 None = resolve_filename s1 (Some p1)"
    by (simp add: resolve_default resolve_explicit f falsy_def)
  show "filename s1 = Some p1" by (rule f)
  show "save s1 None e = save s1 (Some p1) e" by (simp add: save_def r)
  show "load s1 refs None e = load s1 refs (Some p1) e" by (simp add: load_def r)
next
  assume a: "init nodes2 c2 None tmp2 = Inr s2"
  then have f: "filename s2 = None" and g: "autosave_filename s2 = tmp2"
    by (auto simp: init_def Let_def falsy_def)
  from f have r: "resolve_filename s2 None = Inl (Exception ''Filename must be given.'')"
    by (simp add: resolve_default falsy_def)
  show "autosave_filename s2 = tmp2" by (rule g)
  show "filename s2 = None" by (rule f)
  show "save s2 None e = (Some (Exception ''Filename must be given.''), e)"
    by (simp add: save_def r)
  show "load s2 refs None e = (Some (Exception ''Filename must be given.''), s2, e)"
    by (simp add: load_def r)
next
  assume p: "p \<noteq> []"
  from save_touches_one_file[OF p, of s e]
  show "\<forall>q. q \<noteq> p \<longrightarrow> files (snd (save s (Some p) e)) q = files e q"
    and "files (snd (save s (Some p) e)) p \<noteq> None" by simp_all
  show "load s refs (Some p) e = (Some (IOError p), s, e)" if "files e p = None"
    using that p by (simp add: load_def resolve_explicit)
  show "fst (load s refs (Some p) e') = fst (load s refs (Some p) e)"
    and "fst (snd (load s refs (Some p) e')) = fst (snd (load s refs (Some p) e))"
    if "files e' p = files e p \<and> world e' = world e"
    using load_reads_one_file[OF p, of e' e s refs] that by simp_all
qed

text \<open>
  The theorem on loops over \<open>[A, B]\<close>, one constructed with the path \<^verbatim>\<open>ckpt.hdf5\<close> and
  one without a path, in an empty file system.
\<close>

theorem save_load_default_path_witness:
  "save (fresh [nodeA, nodeB] 0 (Some ''ckpt.hdf5'')) None env0 =
     save (fresh [nodeA, nodeB] 0 (Some ''ckpt.hdf5'')) (Some ''ckpt.hdf5'') env0 \<and>
   fst (save (fresh [nodeA, nodeB] 0 (Some ''ckpt.hdf5'')) None env0) = None \<and>
   files (snd (save (fresh [nodeA, nodeB] 0 (Some ''ckpt.hdf5'')) None env0)) ''ckpt.hdf5'' \<noteq> None \<and>
   autosave_filename (fresh [nodeA, nodeB] 0 None) = ''/tmp/vb_autosave_20240101000000_abc.hdf5'' \<and>
   save (fresh [nodeA, nodeB] 0 None) None env0 =
     (Some (Exception ''Filename must be given.''), env0) \<and>
   load (fresh [nodeA, nodeB] 0 None) [] None env0 =
     (Some (Exception ''Filename must be given.''), fresh [nodeA, nodeB] 0 None, env0) \<and>
   files (snd (save (fresh [nodeA, nodeB] 0 None) (Some ''ckpt.hdf5'') env0)) ''ckpt.hdf5'' \<noteq> None \<and>
   files (snd (save (fresh [nodeA, nodeB] 0 None) (Some ''ckpt.hdf5'') env0))
     ''/tmp/vb_autosave_20240101000000_abc.hdf5'' = None \<and>
   load (fresh [nodeA, nodeB] 0 None) [] (Some ''ckpt.hdf5'') env0 =
     (Some (IOError ''ckpt.hdf5''), fresh [nodeA, nodeB] 0 None, env0)"
proof -
  let ?tmp = "tmpfile_name ''/tmp'' ''20240101000000'' ''abc''"
  let ?s1 = "fresh [nodeA, nodeB] 0 (Some ''ckpt.hdf5'')"
  let ?s2 = "fresh [nodeA, nodeB] 0 None"
  have i1: "init [nodeA, nodeB] 0 (Some ''ckpt.hdf5'') ?tmp = Inr ?s1"
    unfolding fresh_def by (rule init_total)
  have i2: "init [nodeA, nodeB] 0 None ?tmp = Inr ?s2"
    unfolding fresh_def by (rule init_total)
  have ne: "''ckpt.hdf5'' \<noteq> []" by simp
  have emp: "files env0 ''ckpt.hdf5'' = None" "files env0 ?tmp = None"
    by (simp_all add: env0_def)
  have tmp: "?tmp = ''/tmp/vb_autosave_20240101000000_abc.hdf5''"
    by (simp add: tmpfile_name_def)
  have neq: "?tmp \<noteq> ''ckpt.hdf5''" by (simp add: tmpfile_name_def)
  note t = save_load_default_path[where ?nodes1.0 = "[nodeA, nodeB]" and ?c1.0 = 0
      and ?p1.0 = "''ckpt.hdf5''" and ?tmp1.0 = ?tmp and ?s1.0 = ?s1 and e = env0
      and refs = "[]" and ?nodes2.0 = "[nodeA, nodeB]" and ?c2.0 = 0 and ?tmp2.0 = ?tmp
      and ?s2.0 = ?s2 and p = "''ckpt.hdf5''" and s = ?s2 and e' = env0]
  from t i1 ne have a: "save ?s1 None env0 = save ?s1 (Some ''ckpt.hdf5'') env0" by blast
  from t i2 have b: "autosave_filename ?s2 = ?tmp"
    "save ?s2 None env0 = (Some (Exception ''Filename must be given.''), env0)"
    "load ?s2 [] None env0 = (Some (Exception ''Filename must be given.''), ?s2, env0)"
    by blast+
  from t ne have c: "\<forall>q. q \<noteq> ''ckpt.hdf5'' \<longrightarrow>
      files (snd (save ?s2 (Some ''ckpt.hdf5'') env0)) q = files env0 q"
    "files (snd (save ?s2 (Some ''ckpt.hdf5'') env0)) ''ckpt.hdf5'' \<noteq> None"
    by blast+
  from t ne emp(1) have d: "load ?s2 [] (Some ''ckpt.hdf5'') env0 =
     (Some (IOError ''ckpt.hdf5''), ?s2, env0)" by blast
  from c(1) neq emp(2) have c1: "files (snd (save ?s2 (Some ''ckpt.hdf5'') env0)) ?tmp = None"
    by simp
  have f: "fst (save ?s1 None env0) = None"
    by (simp add: eval_defs write_boundterms.simps nodeA_def nodeB_def)
  have g: "files (snd (save ?s1 None env0)) ''ckpt.hdf5'' \<noteq> None"
    by (simp add: eval_defs nodeA_def nodeB_def)
  show ?thesis
    by (intro conjI) (rule a, rule f, rule g, rule b(1)[unfolded tmp], rule b(2), rule b(3),
        rule c(2), rule c1[unfolded tmp], rule d)
qed

end
